theory Spec2Isabelle
  imports Main
begin

section \<open>The data model of \<^verbatim>\<open>app.py\<close>\<close>

text \<open>
  The application keeps two pieces of state: the \<^verbatim>\<open>User\<close> table of the database and the
  session dictionary of the client. A row of the table has the three columns of the
  \<^verbatim>\<open>User\<close> model (lines 51 to 54); the primary key column \<^verbatim>\<open>id\<close> is named \<open>id_pk\<close>
  here. Both string columns are declared \<^verbatim>\<open>nullable=False\<close>: a row always holds a string,
  which the field types say.
\<close>

record User =
  id_pk :: int
  username :: string
  password :: string

type_synonym table = "User list"

text \<open>
  The session is a dictionary from keys to strings; the routes use the single key
  \<^verbatim>\<open>'user'\<close>. A submitted form is a dictionary from field names to values.
\<close>

type_synonym session = "string \<rightharpoonup> string"

type_synonym form = "string \<rightharpoonup> string"

datatype http_method = GET | POST

text \<open>
  What a route returns: a redirect to a named endpoint, or a rendered template with its
  context values. What stops a route: \<^verbatim>\<open>request.form[k]\<close> on a missing field (a 400
  response) and a violated uniqueness constraint at commit (the 500 handler of line 39).
\<close>

datatype response = Redirect string | Render string "(string \<times> string) list"

datatype error = BadRequestKeyError string | IntegrityError

section \<open>Password hashing (\<^verbatim>\<open>werkzeug.security\<close>)\<close>

text \<open>
  Line 4 imports \<^verbatim>\<open>generate_password_hash\<close> and \<^verbatim>\<open>check_password_hash\<close> from a library;
  their code is not in the repository. Two things about them stay parameters of
  everything below. The key derivation function \<open>kdf\<close> (PBKDF2 with HMAC-SHA256) maps
  the method tag, the salt and the password to a digest; nothing is assumed about it
  unless a theorem says so. The random source \<open>rnd\<close> gives the draws of one call.
\<close>

type_synonym kdf = "string \<Rightarrow> string \<Rightarrow> string \<Rightarrow> string"

type_synonym rnd = "nat \<Rightarrow> nat"

text \<open>
  Modelled from the spec: the salt generator of \<^verbatim>\<open>generate_password_hash\<close>, which is
  library code absent from the sources. The spec asks for a per-call random salt; the
  library draws each of its \<^verbatim>\<open>salt_length\<close> characters from the letters and digits. The
  \<open>k\<close>-th character is the one \<open>SALT_CHARS\<close> holds at the \<open>k\<close>-th draw, reduced below the
  length of \<open>SALT_CHARS\<close>. (Line 75 fixes the length at 16, so the library's refusal of a
  length below 1 is never met.)
\<close>

definition SALT_CHARS :: string where
  "SALT_CHARS = ''abcdefghijklmnopqrstuvwxyzABCDEFGHIJKLMNOPQRSTUVWXYZ0123456789''"

definition gen_salt :: "rnd \<Rightarrow> nat \<Rightarrow> string" where
  "gen_salt r n = map (\<lambda>k. SALT_CHARS ! (r k mod length SALT_CHARS)) [0..<n]"

text \<open>
  Modelled from the spec: \<^verbatim>\<open>generate_password_hash\<close>, library code absent from the
  sources. The spec describes its result as an opaque string with the algorithm tag and
  the random salt embedded in the encoding; the library documents the encoding as
  \<^verbatim>\<open>method$salt$hash\<close>. The tag written here is the method as line 75 passes it (the
  library also notes its iteration count in the tag; no statement below reads the tag).
\<close>

definition generate_password_hash :: "kdf \<Rightarrow> rnd \<Rightarrow> string \<Rightarrow> string \<Rightarrow> nat \<Rightarrow> string" where
  "generate_password_hash f r pw method salt_length =
     (let salt = gen_salt r salt_length;
          h = f method salt pw
      in method @ ''$'' @ salt @ ''$'' @ h)"

text \<open>
  Modelled from the spec: \<^verbatim>\<open>check_password_hash\<close>, library code absent from the sources.
  The spec: recompute the hash function over the supplied plaintext using the salt and
  parameters embedded in the stored hash, and compare; a match authenticates. The stored
  string is split at its first two dollar signs (\<^verbatim>\<open>split("$", 2)\<close>); with fewer than two
  there are no three parts and the check answers \<^verbatim>\<open>False\<close>.
\<close>

definition not_dollar :: "char \<Rightarrow> bool" where
  "not_dollar c = (c \<noteq> CHR ''$'')"

definition check_password_hash :: "kdf \<Rightarrow> string \<Rightarrow> string \<Rightarrow> bool" where
  "check_password_hash f pwhash pw =
     (if count_list pwhash (CHR ''$'') < 2 then False
      else
        (let method = takeWhile not_dollar pwhash;
             rest = tl (dropWhile not_dollar pwhash);
             salt = takeWhile not_dollar rest;
             hashval = tl (dropWhile not_dollar rest)
         in f method salt pw = hashval))"

section \<open>The database session\<close>

text \<open>
  \<^verbatim>\<open>User.query.filter_by(username=u).first()\<close> is the first row, in table order, whose
  \<^verbatim>\<open>username\<close> equals \<open>u\<close> exactly, or \<^verbatim>\<open>None\<close>.
\<close>

definition filter_by :: "string \<Rightarrow> table \<Rightarrow> table" where
  "filter_by u tbl = filter (\<lambda>row. username row = u) tbl"

definition first :: "table \<Rightarrow> User option" where
  "first rows = (case rows of [] \<Rightarrow> None | row # _ \<Rightarrow> Some row)"

text \<open>
  \<^verbatim>\<open>db.session.add(new_user); db.session.commit()\<close> inserts one row. The database assigns
  the integer primary key (one more than the largest key in the table) and enforces
  \<^verbatim>\<open>unique=True\<close> on \<^verbatim>\<open>username\<close>: a second row with a stored username fails the commit.
\<close>

definition next_id :: "table \<Rightarrow> int" where
  "next_id tbl = foldr max (map id_pk tbl) 0 + 1"

definition add_commit :: "string \<Rightarrow> string \<Rightarrow> table \<Rightarrow> error + table" where
  "add_commit u h tbl =
     (if u \<in> set (map username tbl) then Inl IntegrityError
      else Inr (tbl @ [\<lparr>id_pk = next_id tbl, username = u, password = h\<rparr>]))"

section \<open>The routes\<close>

text \<open>
  Each route takes what it reads (the method, the form, the table, the session) and
  returns the response, the messages it flashed and what it wrote. \<^verbatim>\<open>flash\<close> queues its
  message under a key of Flask's own, apart from the key \<^verbatim>\<open>'user'\<close>; the queue is the list
  of messages returned here. The routes are taken as the framework calls them: the CSRF
  and HTTPS middleware of lines 21 and 31 stands before them and is not part of them.
  \<^verbatim>\<open>request.form[k]\<close> stops the route when the field \<open>k\<close> was not submitted.
\<close>

definition form_get :: "form \<Rightarrow> string \<Rightarrow> error + string" where
  "form_get frm k = (case frm k of None \<Rightarrow> Inl (BadRequestKeyError k) | Some v \<Rightarrow> Inr v)"

definition home :: response where
  "home = Render ''login.html'' []"

definition register ::
  "kdf \<Rightarrow> rnd \<Rightarrow> http_method \<Rightarrow> form \<Rightarrow> table \<Rightarrow> error + (response \<times> string list \<times> table)" where
  "register f r m frm tbl =
     (if m = POST then
        (case form_get frm ''username'' of
           Inl e \<Rightarrow> Inl e
         | Inr u \<Rightarrow>
            (case form_get frm ''password'' of
               Inl e \<Rightarrow> Inl e
             | Inr pw \<Rightarrow>
                (case first (filter_by u tbl) of
                   Some existing_user \<Rightarrow>
                     Inr (Redirect ''register'',
                          [''Username already taken. Please choose another.''], tbl)
                 | None \<Rightarrow>
                     (let hashed_password = generate_password_hash f r pw ''pbkdf2:sha256'' 16
                      in (case add_commit u hashed_password tbl of
                            Inl e \<Rightarrow> Inl e
                          | Inr tbl' \<Rightarrow>
                              Inr (Redirect ''home'',
                                   [''Registration successful! You can now log in.''],
                                   tbl'))))))
      else Inr (Render ''register.html'' [], [], tbl))"

definition login ::
  "kdf \<Rightarrow> form \<Rightarrow> table \<Rightarrow> session \<Rightarrow> error + (response \<times> string list \<times> session)" where
  "login f frm tbl sess =
     (case form_get frm ''username'' of
        Inl e \<Rightarrow> Inl e
      | Inr u \<Rightarrow>
         (case form_get frm ''password'' of
            Inl e \<Rightarrow> Inl e
          | Inr pw \<Rightarrow>
             (case first (filter_by u tbl) of
                Some user \<Rightarrow>
                  if check_password_hash f (password user) pw
                  then Inr (Redirect ''dashboard'', [], sess(''user'' \<mapsto> username user))
                  else Inr (Redirect ''home'', [''Invalid username or password.''], sess)
              | None \<Rightarrow> Inr (Redirect ''home'', [''Invalid username or password.''], sess))))"

definition dashboard :: "session \<Rightarrow> response" where
  "dashboard sess =
     (case sess ''user'' of
        None \<Rightarrow> Redirect ''home''
      | Some u \<Rightarrow> Render ''dashboard.html'' [(''username'', u)])"

definition logout :: "session \<Rightarrow> response \<times> string list \<times> session" where
  "logout sess = (Redirect ''home'', [''You have been logged out.''], sess(''user'' := None))"

section \<open>The application as a machine\<close>

text \<open>
  One request of the client at a time. A route that stops with an error has written
  nothing.
\<close>

record app_state =
  users :: table
  session :: session

datatype request =
    Home
  | Register http_method form rnd
  | Login form
  | Dashboard
  | Logout

definition init :: app_state where
  "init = \<lparr>users = [], session = Map.empty\<rparr>"

definition step :: "kdf \<Rightarrow> request \<Rightarrow> app_state \<Rightarrow> (error + response \<times> string list) \<times> app_state" where
  "step f req st =
     (case req of
        Home \<Rightarrow> (Inr (home, []), st)
      | Register m frm r \<Rightarrow>
          (case register f r m frm (users st) of
             Inl e \<Rightarrow> (Inl e, st)
           | Inr (resp, msgs, tbl') \<Rightarrow> (Inr (resp, msgs), st\<lparr>users := tbl'\<rparr>))
      | Login frm \<Rightarrow>
          (case login f frm (users st) (session st) of
             Inl e \<Rightarrow> (Inl e, st)
           | Inr (resp, msgs, sess') \<Rightarrow> (Inr (resp, msgs), st\<lparr>session := sess'\<rparr>))
      | Dashboard \<Rightarrow> (Inr (dashboard (session st), []), st)
      | Logout \<Rightarrow>
          (case logout (session st) of
             (resp, msgs, sess') \<Rightarrow> (Inr (resp, msgs), st\<lparr>session := sess'\<rparr>)))"

definition run :: "kdf \<Rightarrow> request list \<Rightarrow> app_state \<Rightarrow> app_state" where
  "run f reqs st = foldl (\<lambda>s req. snd (step f req s)) st reqs"

section \<open>Facts about the hashing functions\<close>

text \<open>A generated salt has the length asked for and holds no dollar sign.\<close>

lemma length_SALT_CHARS: "length SALT_CHARS = 62"
  by (simp add: SALT_CHARS_def)

lemma SALT_CHARS_not_dollar: "c \<in> set SALT_CHARS \<Longrightarrow> not_dollar c"
  by (auto simp add: SALT_CHARS_def not_dollar_def)

lemma gen_salt_chars: "c \<in> set (gen_salt r n) \<Longrightarrow> c \<in> set SALT_CHARS"
  by (auto simp add: gen_salt_def length_SALT_CHARS)

lemma gen_salt_not_dollar: "c \<in> set (gen_salt r n) \<Longrightarrow> not_dollar c"
  by (rule SALT_CHARS_not_dollar [OF gen_salt_chars])




text \<open>
  Splitting an encoded string gives back its three parts, provided neither the tag nor the
  salt holds a dollar sign; the digest may hold any character.
\<close>

lemma split_encoded:
  assumes m: "\<And>c. c \<in> set m \<Longrightarrow> not_dollar c"
    and s: "\<And>c. c \<in> set s \<Longrightarrow> not_dollar c"
  shows "check_password_hash f (m @ ''$'' @ s @ ''$'' @ h) pw = (f m s pw = h)"
proof -
  let ?tail = "s @ CHR ''$'' # h"
  let ?enc = "m @ CHR ''$'' # ?tail"
  have nd: "\<not> not_dollar (CHR ''$'')"
    by (simp add: not_dollar_def)
  have part1: "takeWhile not_dollar ?enc = m"
    using m nd by simp
  have after1: "tl (dropWhile not_dollar ?enc) = ?tail"
    using m nd by simp
  have part2: "takeWhile not_dollar ?tail = s"
    using s nd by simp
  have part3: "tl (dropWhile not_dollar ?tail) = h"
    using s nd by simp
  have two: "\<not> count_list ?enc (CHR ''$'') < 2"
    by simp
  show ?thesis
    unfolding check_password_hash_def using two part1 after1 part2 part3
    by (simp add: Let_def)
qed

lemma method_not_dollar: "c \<in> set ''pbkdf2:sha256'' \<Longrightarrow> not_dollar c"
  by (auto simp add: not_dollar_def)

text \<open>
  Checking a password against a hash generated at line 75 compares the two digests under
  the salt of that hash.
\<close>

lemma check_generated:
  "check_password_hash f (generate_password_hash f r pw ''pbkdf2:sha256'' 16) pw' =
     (f ''pbkdf2:sha256'' (gen_salt r 16) pw' = f ''pbkdf2:sha256'' (gen_salt r 16) pw)"
  unfolding generate_password_hash_def Let_def
  by (rule split_encoded [OF method_not_dollar gen_salt_not_dollar])


lemma check_example:
  "check_password_hash (\<lambda>m s p. s @ p)
     ''pbkdf2:sha256$abcdefghijklmnop$abcdefghijklmnopsecret1'' pw = (pw = ''secret1'')"
  by (simp add: check_password_hash_def not_dollar_def)

section \<open>Facts about the query and the routes\<close>

lemma first_filter_by_None: "(first (filter_by u tbl) = None) = (u \<notin> set (map username tbl))"
  by (induction tbl) (auto simp add: first_def filter_by_def)

lemma first_filter_by_Some:
  "first (filter_by u tbl) = Some row \<Longrightarrow> username row = u \<and> row \<in> set tbl"
  by (induction tbl) (auto simp add: first_def filter_by_def split: if_splits)

lemma first_filter_by_append:
  "u \<notin> set (map username tbl) \<Longrightarrow>
   first (filter_by u (tbl @ [row])) = (if username row = u then Some row else None)"
  by (induction tbl) (auto simp add: first_def filter_by_def)

text \<open>The two outcomes of a submitted registration, by whether the username is stored.\<close>

lemma register_new:
  assumes "frm ''username'' = Some u" and "frm ''password'' = Some pw"
    and "u \<notin> set (map username tbl)"
  shows "register f r POST frm tbl =
    Inr (Redirect ''home'', [''Registration successful! You can now log in.''],
         tbl @ [\<lparr>id_pk = next_id tbl, username = u,
                  password = generate_password_hash f r pw ''pbkdf2:sha256'' 16\<rparr>])"
proof -
  have "first (filter_by u tbl) = None"
    using assms(3) by (simp add: first_filter_by_None)
  then show ?thesis
    using assms by (simp add: register_def form_get_def add_commit_def)
qed

lemma register_taken:
  assumes "frm ''username'' = Some u" and "frm ''password'' = Some pw"
    and "u \<in> set (map username tbl)"
  shows "register f r POST frm tbl =
    Inr (Redirect ''register'', [''Username already taken. Please choose another.''], tbl)"
proof -
  have "first (filter_by u tbl) \<noteq> None"
    using assms(3) by (simp add: first_filter_by_None)
  then obtain row where "first (filter_by u tbl) = Some row"
    by blast
  then show ?thesis
    using assms by (simp add: register_def form_get_def)
qed

text \<open>
  A registration that returns has left the table as it was or appended one row with a
  username the table did not hold. The uniqueness constraint of the database is never
  what stops it: the query of line 69 has ruled the case out.
\<close>

lemma register_cases:
  "register f r m frm tbl = Inr (resp, msgs, tbl') \<Longrightarrow>
   tbl' = tbl \<or>
   (\<exists>u h. m = POST \<and> u \<notin> set (map username tbl) \<and>
      tbl' = tbl @ [\<lparr>id_pk = next_id tbl, username = u, password = h\<rparr>])"
  by (auto simp add: register_def form_get_def add_commit_def Let_def
      split: if_splits sum.splits option.splits)

lemma register_no_IntegrityError: "register f r m frm tbl \<noteq> Inl IntegrityError"
  by (auto simp add: register_def form_get_def add_commit_def Let_def first_filter_by_None
      split: if_splits sum.splits option.splits)

lemma login_after_register:
  assumes "frm ''username'' = Some u" and "frm ''password'' = Some pw"
    and "u \<notin> set (map username tbl)"
  shows "login f frm
           (tbl @ [\<lparr>id_pk = i, username = u,
                     password = generate_password_hash f r pw ''pbkdf2:sha256'' 16\<rparr>]) s =
         Inr (Redirect ''dashboard'', [], s(''user'' \<mapsto> u))"
  using assms by (simp add: login_def form_get_def first_filter_by_append check_generated)

section \<open>Facts about the machine\<close>

lemma step_distinct:
  assumes d: "distinct (map username (users st))"
  shows "distinct (map username (users (snd (step f req st))))"
proof (cases req)
  case (Register m frm r)
  show ?thesis
  proof (cases "register f r m frm (users st)")
    case (Inl e)
    with Register d show ?thesis
      by (simp add: step_def)
  next
    case (Inr res)
    obtain resp msgs tbl' where res: "res = (resp, msgs, tbl')"
      by (cases res)
    from register_cases [of f r m frm "users st" resp msgs tbl'] Inr res d
    have "distinct (map username tbl')"
      by auto
    with Inr res Register show ?thesis
      by (simp add: step_def)
  qed
qed (use d in \<open>simp_all add: step_def logout_def split: sum.splits prod.splits\<close>)

lemma run_distinct:
  "distinct (map username (users st)) \<Longrightarrow> distinct (map username (users (run f reqs st)))"
  unfolding run_def
  by (induction reqs arbitrary: st) (simp_all add: step_distinct)

lemma step_users_changed:
  "users (snd (step f req st)) \<noteq> users st \<Longrightarrow> \<exists>frm r. req = Register POST frm r"
  by (cases req)
     (auto simp add: step_def logout_def register_def split: sum.splits prod.splits if_splits)


section \<open>The claims\<close>

subsection \<open>C1: registering, then logging in\<close>

text \<open>
  C1. For every submitted pair of username and password whose username the table does
  not hold yet, the registration succeeds, the login with the same form then succeeds,
  the session is bound to that username, and the dashboard shows it. This holds for
  every key derivation function and every draw of the salt.
\<close>

theorem register_then_login:
  assumes "frm ''username'' = Some u" and "frm ''password'' = Some pw"
    and "first (filter_by u (users st)) = None"
  shows
    "(let (o1, st1) = step f (Register POST frm r) st;
          (o2, st2) = step f (Login frm) st1;
          (o3, st3) = step f Dashboard st2
      in o1 = Inr (Redirect ''home'', [''Registration successful! You can now log in.''])
       \<and> o2 = Inr (Redirect ''dashboard'', [])
       \<and> session st2 ''user'' = Some u
       \<and> o3 = Inr (Render ''dashboard.html'' [(''username'', u)], []))"
proof -
  have new: "u \<notin> set (map username (users st))"
    using assms(3) by (simp add: first_filter_by_None)
  show ?thesis
    using assms(1,2) new
    by (simp add: step_def register_new login_after_register dashboard_def)
qed

theorem register_then_login_witness:
  "[''username'' \<mapsto> ''alice'', ''password'' \<mapsto> ''secret1''] ''username'' = Some ''alice''
   \<and> [''username'' \<mapsto> ''alice'', ''password'' \<mapsto> ''secret1''] ''password'' = Some ''secret1''
   \<and> first (filter_by ''alice'' (users init)) = None
   \<and> session (snd (step (\<lambda>m s p. s @ p)
        (Login [''username'' \<mapsto> ''alice'', ''password'' \<mapsto> ''secret1''])
        (snd (step (\<lambda>m s p. s @ p)
           (Register POST [''username'' \<mapsto> ''alice'', ''password'' \<mapsto> ''secret1''] (\<lambda>k. k))
           init)))) ''user'' = Some ''alice''"
  using register_then_login [of "[''username'' \<mapsto> ''alice'', ''password'' \<mapsto> ''secret1'']"
      "''alice''" "''secret1''" init "\<lambda>m s p. s @ p" "\<lambda>k. k"]
  by (simp add: init_def first_def filter_by_def split: prod.splits)

subsection \<open>C2: one answer for every failed login\<close>

text \<open>
  C2. When the submitted username is not in the table, and when it is there but the
  check of the submitted password against the stored hash fails, the login returns the
  same value: the redirect to the login page, the one message
  \<^verbatim>\<open>Invalid username or password.\<close>, and the session as it was. Nothing in the result tells
  the two causes apart.
\<close>

theorem login_failures_coincide:
  assumes "frm ''username'' = Some u" and "frm ''password'' = Some pw"
    and "first (filter_by u tbl) = None \<or>
         (\<exists>user. first (filter_by u tbl) = Some user \<and>
            \<not> check_password_hash f (password user) pw)"
  shows "login f frm tbl s = Inr (Redirect ''home'', [''Invalid username or password.''], s)"
  using assms by (auto simp add: login_def form_get_def)

theorem login_failures_coincide_witness:
  "login (\<lambda>m s p. s @ p) [''username'' \<mapsto> ''alice'', ''password'' \<mapsto> ''wrong'']
     [\<lparr>id_pk = 1, username = ''alice'',
       password = ''pbkdf2:sha256$abcdefghijklmnop$abcdefghijklmnopsecret1''\<rparr>] Map.empty =
     Inr (Redirect ''home'', [''Invalid username or password.''], Map.empty)
   \<and> login (\<lambda>m s p. s @ p) [''username'' \<mapsto> ''carol'', ''password'' \<mapsto> ''wrong'']
     [\<lparr>id_pk = 1, username = ''alice'',
       password = ''pbkdf2:sha256$abcdefghijklmnop$abcdefghijklmnopsecret1''\<rparr>] Map.empty =
     Inr (Redirect ''home'', [''Invalid username or password.''], Map.empty)"
  using
    login_failures_coincide [of "[''username'' \<mapsto> ''alice'', ''password'' \<mapsto> ''wrong'']"
      "''alice''" "''wrong''"
      "[\<lparr>id_pk = 1, username = ''alice'',
         password = ''pbkdf2:sha256$abcdefghijklmnop$abcdefghijklmnopsecret1''\<rparr>]"
      "\<lambda>m s p. s @ p" Map.empty]
    login_failures_coincide [of "[''username'' \<mapsto> ''carol'', ''password'' \<mapsto> ''wrong'']"
      "''carol''" "''wrong''"
      "[\<lparr>id_pk = 1, username = ''alice'',
         password = ''pbkdf2:sha256$abcdefghijklmnop$abcdefghijklmnopsecret1''\<rparr>]"
      "\<lambda>m s p. s @ p" Map.empty]
  by (simp add: first_def filter_by_def check_example)

subsection \<open>C3: a taken username is refused\<close>

text \<open>
  C3. When the submitted username is already in the table, the registration, whatever the
  password, answers with the redirect to the registration form and the message
  \<^verbatim>\<open>Username already taken. Please choose another.\<close>, and the table it leaves is the table
  it found: no row is changed and none is added.
\<close>

theorem register_duplicate:
  assumes "frm ''username'' = Some u" and "frm ''password'' = Some pw"
    and "u \<in> set (map username tbl)"
  shows "register f r POST frm tbl =
    Inr (Redirect ''register'', [''Username already taken. Please choose another.''], tbl)"
  using assms by (rule register_taken)

theorem register_duplicate_witness:
  "register (\<lambda>m s p. s @ p) (\<lambda>k. k) POST [''username'' \<mapsto> ''alice'', ''password'' \<mapsto> ''other'']
     [\<lparr>id_pk = 1, username = ''alice'',
       password = ''pbkdf2:sha256$abcdefghijklmnop$abcdefghijklmnopsecret1''\<rparr>] =
   Inr (Redirect ''register'', [''Username already taken. Please choose another.''],
     [\<lparr>id_pk = 1, username = ''alice'',
       password = ''pbkdf2:sha256$abcdefghijklmnop$abcdefghijklmnopsecret1''\<rparr>])"
  using register_duplicate [of "[''username'' \<mapsto> ''alice'', ''password'' \<mapsto> ''other'']"
      "''alice''" "''other''"
      "[\<lparr>id_pk = 1, username = ''alice'',
         password = ''pbkdf2:sha256$abcdefghijklmnop$abcdefghijklmnopsecret1''\<rparr>]"
      "\<lambda>m s p. s @ p" "\<lambda>k. k"]
  by simp

subsection \<open>C4: usernames stay unique, and only registration writes\<close>

text \<open>
  C4. In every state the application reaches from the empty table, whatever requests are
  served one after the other, no two rows of the table hold the same username. A request
  that leaves the table different from the one it found is a submitted registration:
  no other route writes rows.
\<close>

theorem usernames_stay_distinct:
  "distinct (map username (users (run f reqs init)))
   \<and> (users (snd (step f req st)) \<noteq> users st \<longrightarrow> (\<exists>frm r. req = Register POST frm r))"
proof
  have "distinct (map username (users init))"
    by (simp add: init_def)
  then show "distinct (map username (users (run f reqs init)))"
    by (rule run_distinct)
  show "users (snd (step f req st)) \<noteq> users st \<longrightarrow> (\<exists>frm r. req = Register POST frm r)"
    using step_users_changed by blast
qed

theorem usernames_stay_distinct_witness:
  "map username (users (run (\<lambda>m s p. s @ p)
      [Register POST [''username'' \<mapsto> ''alice'', ''password'' \<mapsto> ''secret1''] (\<lambda>k. k),
       Register POST [''username'' \<mapsto> ''alice'', ''password'' \<mapsto> ''other''] (\<lambda>k. 0),
       Login [''username'' \<mapsto> ''alice'', ''password'' \<mapsto> ''secret1''],
       Register POST [''username'' \<mapsto> ''bob'', ''password'' \<mapsto> ''secret1''] (\<lambda>k. 0)] init)) =
     [''alice'', ''bob'']
   \<and> distinct (map username (users (run (\<lambda>m s p. s @ p)
      [Register POST [''username'' \<mapsto> ''alice'', ''password'' \<mapsto> ''secret1''] (\<lambda>k. k),
       Register POST [''username'' \<mapsto> ''alice'', ''password'' \<mapsto> ''other''] (\<lambda>k. 0),
       Login [''username'' \<mapsto> ''alice'', ''password'' \<mapsto> ''secret1''],
       Register POST [''username'' \<mapsto> ''bob'', ''password'' \<mapsto> ''secret1''] (\<lambda>k. 0)] init)))
   \<and> users (snd (step (\<lambda>m s p. s @ p)
        (Register POST [''username'' \<mapsto> ''alice'', ''password'' \<mapsto> ''secret1''] (\<lambda>k. k)) init))
      \<noteq> users init"
  using usernames_stay_distinct [of "\<lambda>m s p. s @ p"
      "[Register POST [''username'' \<mapsto> ''alice'', ''password'' \<mapsto> ''secret1''] (\<lambda>k. k),
        Register POST [''username'' \<mapsto> ''alice'', ''password'' \<mapsto> ''other''] (\<lambda>k. 0),
        Login [''username'' \<mapsto> ''alice'', ''password'' \<mapsto> ''secret1''],
        Register POST [''username'' \<mapsto> ''bob'', ''password'' \<mapsto> ''secret1''] (\<lambda>k. 0)]"
      "Register POST [''username'' \<mapsto> ''alice'', ''password'' \<mapsto> ''secret1''] (\<lambda>k. k)" init]
  by (simp add: run_def step_def register_def login_def form_get_def first_def filter_by_def
      init_def add_commit_def)

subsection \<open>C5: a failed login leaves the session alone\<close>

text \<open>
  C5. A login request that does not end in the redirect to the dashboard (unknown
  username, failed password check, or a field missing from the form) leaves the whole state
  as it was: a session without the key \<^verbatim>\<open>'user'\<close> stays without it, a session bound to a
  username stays bound to the same username, and the dashboard answers as before.
\<close>

theorem failed_login_keeps_session:
  "fst (step f (Login frm) st) \<noteq> Inr (Redirect ''dashboard'', []) \<Longrightarrow>
   snd (step f (Login frm) st) = st
   \<and> session (snd (step f (Login frm) st)) ''user'' = session st ''user''
   \<and> dashboard (session (snd (step f (Login frm) st))) = dashboard (session st)"
  by (auto simp add: step_def login_def split: sum.splits option.splits if_splits)

theorem failed_login_keeps_session_witness:
  "fst (step (\<lambda>m s p. s @ p) (Login [''username'' \<mapsto> ''alice'', ''password'' \<mapsto> ''wrong''])
     \<lparr>users = [\<lparr>id_pk = 1, username = ''alice'',
         password = ''pbkdf2:sha256$abcdefghijklmnop$abcdefghijklmnopsecret1''\<rparr>],
      session = [''user'' \<mapsto> ''alice'']\<rparr>) \<noteq> Inr (Redirect ''dashboard'', [])
   \<and> session (snd (step (\<lambda>m s p. s @ p)
       (Login [''username'' \<mapsto> ''alice'', ''password'' \<mapsto> ''wrong''])
     \<lparr>users = [\<lparr>id_pk = 1, username = ''alice'',
         password = ''pbkdf2:sha256$abcdefghijklmnop$abcdefghijklmnopsecret1''\<rparr>],
      session = [''user'' \<mapsto> ''alice'']\<rparr>)) ''user'' = Some ''alice''
   \<and> fst (step (\<lambda>m s p. s @ p) (Login [''username'' \<mapsto> ''carol'', ''password'' \<mapsto> ''x'']) init)
       \<noteq> Inr (Redirect ''dashboard'', [])
   \<and> session (snd (step (\<lambda>m s p. s @ p)
       (Login [''username'' \<mapsto> ''carol'', ''password'' \<mapsto> ''x'']) init)) ''user'' = None"
  using
    failed_login_keeps_session [of "\<lambda>m s p. s @ p"
      "[''username'' \<mapsto> ''alice'', ''password'' \<mapsto> ''wrong'']"
      "\<lparr>users = [\<lparr>id_pk = 1, username = ''alice'',
         password = ''pbkdf2:sha256$abcdefghijklmnop$abcdefghijklmnopsecret1''\<rparr>],
        session = [''user'' \<mapsto> ''alice'']\<rparr>"]
    failed_login_keeps_session [of "\<lambda>m s p. s @ p"
      "[''username'' \<mapsto> ''carol'', ''password'' \<mapsto> ''x'']" init]
  by (simp add: step_def login_def form_get_def first_def filter_by_def check_example init_def)

subsection \<open>C6: the scenario of alice\<close>

text \<open>
  C6. From the empty table and a session without a user: registering alice with the
  password secret1 succeeds; logging in with that pair succeeds and the dashboard shows
  alice; after the logout the dashboard sends the client back to the login page; a login
  as alice with the password wrong is answered with \<^verbatim>\<open>Invalid username or password.\<close>,
  and the dashboard still sends the client back. The last step needs the key derivation
  function to give the two passwords different digests under the salt of alice's hash,
  which is the one thing assumed.
\<close>

theorem scenario_alice:
  assumes "f ''pbkdf2:sha256'' (gen_salt r 16) ''wrong'' \<noteq>
           f ''pbkdf2:sha256'' (gen_salt r 16) ''secret1''"
  shows
    "(let good = [''username'' \<mapsto> ''alice'', ''password'' \<mapsto> ''secret1''];
          bad = [''username'' \<mapsto> ''alice'', ''password'' \<mapsto> ''wrong''];
          (o1, s1) = step f (Register POST good r) init;
          (o2, s2) = step f (Login good) s1;
          (o3, s3) = step f Dashboard s2;
          (o4, s4) = step f Logout s3;
          (o5, s5) = step f Dashboard s4;
          (o6, s6) = step f (Login bad) s5;
          (o7, s7) = step f Dashboard s6
      in o1 = Inr (Redirect ''home'', [''Registration successful! You can now log in.''])
       \<and> o2 = Inr (Redirect ''dashboard'', [])
       \<and> o3 = Inr (Render ''dashboard.html'' [(''username'', ''alice'')], [])
       \<and> o4 = Inr (Redirect ''home'', [''You have been logged out.''])
       \<and> o5 = Inr (Redirect ''home'', [])
       \<and> o6 = Inr (Redirect ''home'', [''Invalid username or password.''])
       \<and> o7 = Inr (Redirect ''home'', []))"
proof -
  let ?good = "[''username'' \<mapsto> ''alice'', ''password'' \<mapsto> ''secret1'']"
  let ?bad = "[''username'' \<mapsto> ''alice'', ''password'' \<mapsto> ''wrong'']"
  let ?h = "generate_password_hash f r ''secret1'' ''pbkdf2:sha256'' 16"
  let ?tbl = "[\<lparr>id_pk = next_id [], username = ''alice'', password = ?h\<rparr>]"
  have reg: "register f r POST ?good [] =
      Inr (Redirect ''home'', [''Registration successful! You can now log in.''], ?tbl)"
    using register_new [of ?good "''alice''" "''secret1''" "[]" f r] by simp
  have ok: "login f ?good ?tbl s = Inr (Redirect ''dashboard'', [], s(''user'' \<mapsto> ''alice''))"
    for s
    using login_after_register [of ?good "''alice''" "''secret1''" "[]" f "next_id []" r s]
    by simp
  have ko: "login f ?bad ?tbl s = Inr (Redirect ''home'', [''Invalid username or password.''], s)"
    for s
    using assms
    by (simp add: login_def form_get_def first_def filter_by_def check_generated)
  show ?thesis
    by (simp add: Let_def step_def init_def reg ok ko dashboard_def logout_def)
qed

theorem scenario_alice_witness:
  "gen_salt (\<lambda>k. k) 16 @ ''wrong'' \<noteq> gen_salt (\<lambda>k. k) 16 @ ''secret1''
   \<and> (let good = [''username'' \<mapsto> ''alice'', ''password'' \<mapsto> ''secret1''];
          bad = [''username'' \<mapsto> ''alice'', ''password'' \<mapsto> ''wrong''];
          (o1, s1) = step (\<lambda>m s p. s @ p) (Register POST good (\<lambda>k. k)) init;
          (o2, s2) = step (\<lambda>m s p. s @ p) (Login good) s1;
          (o3, s3) = step (\<lambda>m s p. s @ p) Dashboard s2;
          (o4, s4) = step (\<lambda>m s p. s @ p) Logout s3;
          (o5, s5) = step (\<lambda>m s p. s @ p) Dashboard s4;
          (o6, s6) = step (\<lambda>m s p. s @ p) (Login bad) s5;
          (o7, s7) = step (\<lambda>m s p. s @ p) Dashboard s6
      in o1 = Inr (Redirect ''home'', [''Registration successful! You can now log in.''])
       \<and> o2 = Inr (Redirect ''dashboard'', [])
       \<and> o3 = Inr (Render ''dashboard.html'' [(''username'', ''alice'')], [])
       \<and> o4 = Inr (Redirect ''home'', [''You have been logged out.''])
       \<and> o5 = Inr (Redirect ''home'', [])
       \<and> o6 = Inr (Redirect ''home'', [''Invalid username or password.''])
       \<and> o7 = Inr (Redirect ''home'', []))"
proof -
  have sep: "gen_salt (\<lambda>k. k) 16 @ ''wrong'' \<noteq> gen_salt (\<lambda>k. k) 16 @ ''secret1''"
    by simp
  show ?thesis
    using sep scenario_alice [of "\<lambda>m s p. s @ p" "\<lambda>k. k"] by blast
qed

subsection \<open>C7: logging out\<close>

text \<open>
  C7. The logout removes the key \<^verbatim>\<open>'user'\<close> from the session, so that the dashboard sends
  the client to the login page; a second logout gives what the first gave; and on a session
  that has no key \<^verbatim>\<open>'user'\<close> the logout returns its usual redirect and message with the
  session as it was. The route has no failing branch.
\<close>

theorem logout_idempotent:
  "snd (snd (logout s)) ''user'' = None
   \<and> dashboard (snd (snd (logout s))) = Redirect ''home''
   \<and> logout (snd (snd (logout s))) = logout s
   \<and> (s ''user'' = None \<longrightarrow> logout s = (Redirect ''home'', [''You have been logged out.''], s))"
  by (auto simp add: logout_def dashboard_def)

theorem logout_idempotent_witness:
  "Map.empty ''user'' = (None :: string option)
   \<and> logout Map.empty = (Redirect ''home'', [''You have been logged out.''], Map.empty)
   \<and> dashboard (snd (snd (logout [''user'' \<mapsto> ''alice'']))) = Redirect ''home''"
  using logout_idempotent [of Map.empty] logout_idempotent [of "[''user'' \<mapsto> ''alice'']"]
  by simp

subsection \<open>C8: the same password under two salts\<close>



subsection \<open>C9: the empty username\<close>

text \<open>
  C9 says that no row ever holds the empty username. The registration does not look at
  the username beyond the query for a stored one, and \<^verbatim>\<open>nullable=False\<close> (line 53, with
  the comment that the column must be unique and not empty) refuses only a missing value:
  a form submitted with an empty username field, on the empty table, stores a row whose
  username is the empty string.
\<close>

theorem register_accepts_empty_username:
  "map username
     (users (run f [Register POST [''username'' \<mapsto> [], ''password'' \<mapsto> ''pw''] r] init)) =
   [[]]"
  using register_new [of "[''username'' \<mapsto> [], ''password'' \<mapsto> ''pw'']" "[]" "''pw''" "[]" f r]
  by (simp add: run_def step_def init_def)

subsection \<open>C10: a login over an existing binding\<close>

text \<open>
  C10. A login that passes the password check sets the key \<^verbatim>\<open>'user'\<close> of the session to
  the submitted username whatever the session held before: a session bound to another
  username is bound to the new one afterwards, and the dashboard shows the new one.
\<close>

theorem login_overwrites_binding:
  assumes "frm ''username'' = Some u" and "frm ''password'' = Some pw"
    and "first (filter_by u tbl) = Some user"
    and "check_password_hash f (password user) pw"
  shows "login f frm tbl s = Inr (Redirect ''dashboard'', [], s(''user'' \<mapsto> u))
       \<and> (s(''user'' \<mapsto> u)) ''user'' = Some u
       \<and> dashboard (s(''user'' \<mapsto> u)) = Render ''dashboard.html'' [(''username'', u)]"
  using assms first_filter_by_Some [OF assms(3)]
  by (simp add: login_def form_get_def dashboard_def)

theorem login_overwrites_binding_witness:
  "dashboard [''user'' \<mapsto> ''bob''] = Render ''dashboard.html'' [(''username'', ''bob'')]
   \<and> login (\<lambda>m s p. s @ p) [''username'' \<mapsto> ''alice'', ''password'' \<mapsto> ''secret1'']
       [\<lparr>id_pk = 1, username = ''alice'',
         password = ''pbkdf2:sha256$abcdefghijklmnop$abcdefghijklmnopsecret1''\<rparr>]
       [''user'' \<mapsto> ''bob''] =
     Inr (Redirect ''dashboard'', [], [''user'' \<mapsto> ''alice''])
   \<and> dashboard [''user'' \<mapsto> ''alice''] = Render ''dashboard.html'' [(''username'', ''alice'')]"
  using login_overwrites_binding [of "[''username'' \<mapsto> ''alice'', ''password'' \<mapsto> ''secret1'']"
      "''alice''" "''secret1''"
      "[\<lparr>id_pk = 1, username = ''alice'',
         password = ''pbkdf2:sha256$abcdefghijklmnop$abcdefghijklmnopsecret1''\<rparr>]"
      "\<lparr>id_pk = 1, username = ''alice'',
         password = ''pbkdf2:sha256$abcdefghijklmnop$abcdefghijklmnopsecret1''\<rparr>"
      "\<lambda>m s p. s @ p" "[''user'' \<mapsto> ''bob'']"]
  by (simp add: first_def filter_by_def check_example dashboard_def)

end
